theory Spec2Isabelle
  imports Main
begin

section \<open>The presence and messaging relay of server.js\<close>

text \<open>
  The relay lives in the \<^verbatim>\<open>io.on('connection', ...)\<close> block of \<^verbatim>\<open>src/server.js\<close>
  (lines 32 to 121): a module-level \<^verbatim>\<open>users\<close> Map from socket id to
  \<^verbatim>\<open>{ username, status }\<close>, four listeners per socket (\<^verbatim>\<open>user_connected\<close>,
  \<^verbatim>\<open>send_message\<close>, \<^verbatim>\<open>typing\<close>, \<^verbatim>\<open>disconnect\<close>) and one \<^verbatim>\<open>setTimeout\<close> callback.

  Each listener becomes a function from the server state to the new state and the list of
  emit calls it made, in program order. \<^verbatim>\<open>new Date()\<close> is the parameter \<open>now\<close>
  (milliseconds), \<^verbatim>\<open>socket.id\<close> the parameter \<open>sid\<close>. The \<^verbatim>\<open>console.log\<close> calls have
  no effect on the state or on what is emitted and are left out. The rest of the module
  (the Express routes and the second \<^verbatim>\<open>const server\<close> at line 147) is outside the relay
  and is not modelled.
\<close>

subsection \<open>Data\<close>

type_synonym sid = string

text \<open>
  The object literal \<^verbatim>\<open>{ username, status: 'online' }\<close> stored in \<^verbatim>\<open>users\<close>. Socket
  ids, names and message texts are strings.
\<close>

record user =
  username :: string
  status :: string

text \<open>
  A JavaScript \<^verbatim>\<open>Map\<close> iterates in insertion order, so \<^verbatim>\<open>users\<close> is an association
  list: \<^verbatim>\<open>set\<close> on a present key replaces the value where it stands, \<^verbatim>\<open>set\<close> on a new key
  appends, \<^verbatim>\<open>delete\<close> removes the entry, \<^verbatim>\<open>get\<close> answers \<^verbatim>\<open>undefined\<close> (\<open>None\<close>) for a
  missing key.
\<close>

type_synonym registry = "(sid \<times> user) list"

fun users_set :: "sid \<Rightarrow> user \<Rightarrow> registry \<Rightarrow> registry" where
  "users_set k v [] = [(k, v)]"
| "users_set k v ((k', v') # m) =
     (if k' = k then (k, v) # m else (k', v') # users_set k v m)"

fun users_get :: "sid \<Rightarrow> registry \<Rightarrow> user option" where
  "users_get k [] = None"
| "users_get k ((k', v') # m) = (if k' = k then Some v' else users_get k m)"

fun users_delete :: "sid \<Rightarrow> registry \<Rightarrow> registry" where
  "users_delete k [] = []"
| "users_delete k ((k', v') # m) =
     (if k' = k then users_delete k m else (k', v') # users_delete k m)"

text \<open>\<^verbatim>\<open>Array.from(users.entries())\<close>: the entries in iteration order.\<close>

definition users_entries :: "registry \<Rightarrow> (sid \<times> user) list" where
  "users_entries m = m"

text \<open>
  The server state: the \<^verbatim>\<open>users\<close> Map and the callbacks handed to \<^verbatim>\<open>setTimeout\<close> that
  have not run yet, each with the time it is due and the \<^verbatim>\<open>socket.id\<close> its closure
  captured, in the order they were scheduled. All delays are the same 60000 ms, so the
  event loop runs them in that order.
\<close>

record server =
  users :: registry
  timers :: "(nat \<times> sid) list"

text \<open>The payloads, one constructor per outbound event name, fields in source order.\<close>

datatype payload =
    user_status_changed sid string string nat
      \<comment> \<open>\<^verbatim>\<open>{ userId, username, status, timestamp }\<close>\<close>
  | users_list "(sid \<times> string \<times> string) list"
      \<comment> \<open>array of \<^verbatim>\<open>{ id, username, status }\<close>\<close>
  | receive_message sid string string bool nat
      \<comment> \<open>\<^verbatim>\<open>{ from, username, message, isPrivate, timestamp }\<close>\<close>
  | user_typing sid string bool
      \<comment> \<open>\<^verbatim>\<open>{ userId, username, isTyping }\<close>\<close>

text \<open>The four ways the listeners emit.\<close>

datatype emit =
    io_emit payload                    \<comment> \<open>\<^verbatim>\<open>io.emit(ev, p)\<close>\<close>
  | socket_emit sid payload            \<comment> \<open>\<^verbatim>\<open>socket.emit(ev, p)\<close> on socket \<open>sid\<close>\<close>
  | socket_to_emit sid sid payload     \<comment> \<open>\<^verbatim>\<open>socket.to(room).emit(ev, p)\<close>: socket, room\<close>
  | socket_broadcast_emit sid payload  \<comment> \<open>\<^verbatim>\<open>socket.broadcast.emit(ev, p)\<close>\<close>

text \<open>
  The argument of \<^verbatim>\<open>send_message\<close>. \<^verbatim>\<open>to\<close> is \<open>None\<close> when the property is missing or
  \<^verbatim>\<open>undefined\<close>. The whole argument is \<open>None\<close> when the client sent \<^verbatim>\<open>undefined\<close> or
  \<^verbatim>\<open>null\<close>, on which the destructuring \<^verbatim>\<open>const { to, message } = data\<close> throws.
\<close>

record message_data =
  to :: "sid option"
  message :: string

datatype error = TypeError

subsection \<open>The listeners\<close>

text \<open>\<^verbatim>\<open>socket.on('user_connected', (username) => ...)\<close>, lines 40 to 58.\<close>

definition user_connected :: "nat \<Rightarrow> sid \<Rightarrow> string \<Rightarrow> server \<Rightarrow> server \<times> emit list" where
  "user_connected now sid uname s =
     (let s' = s\<lparr>users := users_set sid \<lparr>username = uname, status = ''online''\<rparr> (users s)\<rparr>
      in (s',
          [io_emit (user_status_changed sid uname ''online'' now),
           socket_emit sid
             (users_list (map (\<lambda>(i, u). (i, username u, status u)) (users_entries (users s'))))]))"

text \<open>
  \<^verbatim>\<open>sender?.username || 'Unknown'\<close>: the label when there is no record, and also when the
  stored name is the empty string, which is falsy.
\<close>

definition sender_name :: "user option \<Rightarrow> string" where
  "sender_name sender =
     (case sender of
        None \<Rightarrow> ''Unknown''
      | Some u \<Rightarrow> if username u = [] then ''Unknown'' else username u)"

text \<open>\<^verbatim>\<open>if (to)\<close>: \<^verbatim>\<open>undefined\<close> and the empty string are falsy.\<close>

definition truthy :: "string option \<Rightarrow> bool" where
  "truthy v = (case v of None \<Rightarrow> False | Some t \<Rightarrow> t \<noteq> [])"

text \<open>\<^verbatim>\<open>socket.on('send_message', (data) => ...)\<close>, lines 61 to 84.\<close>

definition send_message ::
  "nat \<Rightarrow> sid \<Rightarrow> message_data option \<Rightarrow> server \<Rightarrow> error + server \<times> emit list" where
  "send_message now sid data s =
     (case data of
        None \<Rightarrow> Inl TypeError
      | Some d \<Rightarrow>
          (let sender = users_get sid (users s) in
           if truthy (to d)
           then Inr (s, [socket_to_emit sid (the (to d))
                           (receive_message sid (sender_name sender) (message d) True now)])
           else Inr (s, [socket_broadcast_emit sid
                           (receive_message sid (sender_name sender) (message d) False now)])))"

text \<open>\<^verbatim>\<open>socket.on('typing', (isTyping) => ...)\<close>, lines 87 to 96.\<close>

definition typing :: "sid \<Rightarrow> bool \<Rightarrow> server \<Rightarrow> server \<times> emit list" where
  "typing sid isTyping s =
     (case users_get sid (users s) of
        None \<Rightarrow> (s, [])
      | Some u \<Rightarrow> (s, [socket_broadcast_emit sid (user_typing sid (username u) isTyping)]))"

text \<open>
  \<^verbatim>\<open>socket.on('disconnect', () => ...)\<close>, lines 99 to 120. The \<^verbatim>\<open>setTimeout\<close> call appends
  its callback to the pending ones, due 60000 ms from now.
\<close>

definition disconnect :: "nat \<Rightarrow> sid \<Rightarrow> server \<Rightarrow> server \<times> emit list" where
  "disconnect now sid s =
     (case users_get sid (users s) of
        None \<Rightarrow> (s, [])
      | Some u \<Rightarrow>
          (s\<lparr>users := users_set sid (u\<lparr>status := ''offline''\<rparr>) (users s),
             timers := timers s @ [(now + 60000, sid)]\<rparr>,
           [io_emit (user_status_changed sid (username u) ''offline'' now)]))"

text \<open>
  The body of the callback, lines 115 to 117. \<open>live\<close> is the key set of
  \<^verbatim>\<open>io.sockets.sockets\<close> when the callback runs.
\<close>

definition grace_timeout :: "sid set \<Rightarrow> sid \<Rightarrow> server \<Rightarrow> server" where
  "grace_timeout live sid s =
     (if sid \<notin> live then s\<lparr>users := users_delete sid (users s)\<rparr> else s)"

text \<open>
  One turn of the timer phase: the oldest pending callback runs if it is due, and leaves
  the pending list. \<open>None\<close> when nothing is due.
\<close>

definition timer_fires :: "nat \<Rightarrow> sid set \<Rightarrow> server \<Rightarrow> server option" where
  "timer_fires now live s =
     (case timers s of
        [] \<Rightarrow> None
      | (due, sid) # rest \<Rightarrow>
          if due \<le> now then Some (grace_timeout live sid (s\<lparr>timers := rest\<rparr>)) else None)"

text \<open>The inbound events of one socket and the listener each one runs.\<close>

datatype event =
    User_connected string
  | Send_message "message_data option"
  | Typing bool
  | Disconnect

definition socket_on :: "nat \<Rightarrow> sid \<Rightarrow> event \<Rightarrow> server \<Rightarrow> error + server \<times> emit list" where
  "socket_on now sid ev s =
     (case ev of
        User_connected uname \<Rightarrow> Inr (user_connected now sid uname s)
      | Send_message data \<Rightarrow> send_message now sid data s
      | Typing isTyping \<Rightarrow> Inr (typing sid isTyping s)
      | Disconnect \<Rightarrow> Inr (disconnect now sid s))"

subsection \<open>Delivery\<close>

text \<open>
  Who receives an emit is decided by socket.io, not by this file. With \<open>live\<close> the ids
  of the connected sockets: \<^verbatim>\<open>io.emit\<close> reaches every connected socket; \<^verbatim>\<open>socket.emit\<close>
  reaches that socket; \<^verbatim>\<open>socket.broadcast.emit\<close> reaches every connected socket but the
  emitting one; \<^verbatim>\<open>socket.to(room).emit\<close> reaches the sockets in the room but the emitting
  one. The source never calls \<^verbatim>\<open>join\<close>, so the only room a socket is in is the one named
  by its own id.
\<close>

fun reaches :: "sid set \<Rightarrow> sid \<Rightarrow> emit \<Rightarrow> bool" where
  "reaches live r (io_emit p) = (r \<in> live)"
| "reaches live r (socket_emit sid p) = (r \<in> live \<and> r = sid)"
| "reaches live r (socket_to_emit sid room p) = (r \<in> live \<and> r = room \<and> r \<noteq> sid)"
| "reaches live r (socket_broadcast_emit sid p) = (r \<in> live \<and> r \<noteq> sid)"

fun payload_of :: "emit \<Rightarrow> payload" where
  "payload_of (io_emit p) = p"
| "payload_of (socket_emit sid p) = p"
| "payload_of (socket_to_emit sid room p) = p"
| "payload_of (socket_broadcast_emit sid p) = p"

text \<open>What connection \<open>r\<close> receives from a list of emits, in order.\<close>

definition inbox :: "sid set \<Rightarrow> sid \<Rightarrow> emit list \<Rightarrow> payload list" where
  "inbox live r out = map payload_of (filter (reaches live r) out)"

section \<open>Properties of the registry\<close>

lemma users_get_set: "users_get k' (users_set k v m) = (if k' = k then Some v else users_get k' m)"
  by (induction m) auto

lemma keys_users_set:
  "map fst (users_set k v m) = (if k \<in> set (map fst m) then map fst m else map fst m @ [k])"
  by (induction m) (force split: if_splits)+

lemma users_set_key: "k \<in> set (map fst (users_set k v m))"
  unfolding keys_users_set by simp

lemma users_set_fresh: "k \<notin> set (map fst m) \<Longrightarrow> users_set k v m = m @ [(k, v)]"
  by (induction m) auto

lemma users_get_None_iff: "users_get k m = None \<longleftrightarrow> k \<notin> set (map fst m)"
  by (induction m) (force split: if_splits)+

lemma users_get_delete:
  "users_get k' (users_delete k m) = (if k' = k then None else users_get k' m)"
  by (induction m) auto

lemma keys_users_delete: "map fst (users_delete k m) = filter (\<lambda>k'. k' \<noteq> k) (map fst m)"
  by (induction m) auto

section \<open>Properties of delivery\<close>

lemma inbox_Nil: "inbox live r [] = []"
  by (simp add: inbox_def)

lemma inbox_Cons:
  "inbox live r (e # out) =
     (if reaches live r e then payload_of e # inbox live r out else inbox live r out)"
  by (simp add: inbox_def)

section \<open>Joining\<close>

text \<open>
  C1. Whatever the socket id \<open>I\<close> and the name, after the \<^verbatim>\<open>user_connected\<close> listener has
  run, \<^verbatim>\<open>users.get(I)\<close> holds the record with that name and status \<^verbatim>\<open>'online'\<close>, \<open>I\<close> is
  among the entries of the Map, the status notification
  \<^verbatim>\<open>{ userId: I, username, status: 'online', timestamp }\<close> was emitted with \<^verbatim>\<open>io.emit\<close>, and
  every connected socket receives it exactly once.
\<close>

theorem user_connected_online:
  "case user_connected now I name s of (s', out) \<Rightarrow>
     users_get I (users s') = Some \<lparr>username = name, status = ''online''\<rparr> \<and>
     I \<in> set (map fst (users_entries (users s'))) \<and>
     io_emit (user_status_changed I name ''online'' now) \<in> set out \<and>
     (\<forall>r\<in>live. count_list (inbox live r out) (user_status_changed I name ''online'' now) = 1)"
  by (simp add: user_connected_def Let_def users_get_set users_set_key [simplified]
      users_entries_def inbox_Cons inbox_Nil)

theorem user_connected_online_witness:
  "users_get ''A'' (users (fst (user_connected 7 ''A'' ''alice'' \<lparr>users = [], timers = []\<rparr>)))
     = Some \<lparr>username = ''alice'', status = ''online''\<rparr> \<and>
   count_list
     (inbox {''A'', ''B''} ''B'' (snd (user_connected 7 ''A'' ''alice'' \<lparr>users = [], timers = []\<rparr>)))
     (user_status_changed ''A'' ''alice'' ''online'' 7) = 1"
  using user_connected_online [where now = 7 and I = "''A''" and name = "''alice''"
      and s = "\<lparr>users = [], timers = []\<rparr>" and live = "{''A'', ''B''}"]
  by (simp add: split_beta)

section \<open>Messages\<close>

text \<open>The argument \<^verbatim>\<open>undefined\<close> makes the listener throw before anything is emitted.\<close>

lemma send_message_undefined: "send_message now sid None s = Inl TypeError"
  by (simp add: send_message_def)




text \<open>
  C3. For every sender \<open>A\<close>, a message with no target (\<^verbatim>\<open>to\<close> missing, or falsy) makes
  every connected socket other than \<open>A\<close> receive exactly one \<^verbatim>\<open>receive_message\<close> payload,
  with \<^verbatim>\<open>isPrivate: false\<close>; \<open>A\<close> receives nothing, and the state is as it was.
\<close>

theorem broadcast_message_delivery:
  "\<not> truthy (to d) \<Longrightarrow>
   (case send_message now A (Some d) s of
      Inl e \<Rightarrow> False
    | Inr (s', out) \<Rightarrow>
        s' = s \<and>
        (\<forall>r. inbox live r out =
           (if r \<in> live \<and> r \<noteq> A
            then [receive_message A (sender_name (users_get A (users s))) (message d) False now]
            else [])))"
  by (simp add: send_message_def inbox_Cons inbox_Nil)

theorem broadcast_message_delivery_witness:
  "\<not> truthy (to \<lparr>to = None, message = ''hi''\<rparr>) \<and>
   send_message 3 ''A'' (Some \<lparr>to = None, message = ''hi''\<rparr>)
       \<lparr>users = [(''A'', \<lparr>username = ''alice'', status = ''online''\<rparr>)], timers = []\<rparr>
     = Inr (\<lparr>users = [(''A'', \<lparr>username = ''alice'', status = ''online''\<rparr>)], timers = []\<rparr>,
            [socket_broadcast_emit ''A'' (receive_message ''A'' ''alice'' ''hi'' False 3)]) \<and>
   inbox {''A'', ''B'', ''C''} ''B''
       [socket_broadcast_emit ''A'' (receive_message ''A'' ''alice'' ''hi'' False 3)]
     = [receive_message ''A'' ''alice'' ''hi'' False 3] \<and>
   inbox {''A'', ''B'', ''C''} ''C''
       [socket_broadcast_emit ''A'' (receive_message ''A'' ''alice'' ''hi'' False 3)]
     = [receive_message ''A'' ''alice'' ''hi'' False 3] \<and>
   inbox {''A'', ''B'', ''C''} ''A''
       [socket_broadcast_emit ''A'' (receive_message ''A'' ''alice'' ''hi'' False 3)] = []"
proof -
  let ?d = "\<lparr>to = None, message = ''hi''\<rparr>"
  let ?s = "\<lparr>users = [(''A'', \<lparr>username = ''alice'', status = ''online''\<rparr>)], timers = []\<rparr>"
  have t: "\<not> truthy (to ?d)"
    by (simp add: truthy_def)
  have run: "send_message 3 ''A'' (Some ?d) ?s =
      Inr (?s, [socket_broadcast_emit ''A'' (receive_message ''A'' ''alice'' ''hi'' False 3)])"
    by (simp add: send_message_def truthy_def sender_name_def)
  show ?thesis
    using t broadcast_message_delivery [OF t, where now = 3 and A = "''A''" and s = ?s
        and live = "{''A'', ''B'', ''C''}"]
    unfolding run by (simp add: sender_name_def)
qed

text \<open>
  C7. When the sender \<open>A\<close> has no record, the payload carries the name \<^verbatim>\<open>'Unknown'\<close> and the
  send goes through, to the room of the target when a target is given and to everyone but
  \<open>A\<close> otherwise. No listener throws on an argument of the expected shape: the one
  throwing path is \<^verbatim>\<open>send_message\<close> called with \<^verbatim>\<open>undefined\<close> or \<^verbatim>\<open>null\<close>.
\<close>

theorem unknown_sender_still_sends:
  "users_get A (users s) = None \<Longrightarrow>
   (\<forall>B. to d = Some B \<and> B \<noteq> [] \<longrightarrow>
      send_message now A (Some d) s =
        Inr (s, [socket_to_emit A B (receive_message A ''Unknown'' (message d) True now)])) \<and>
   (\<not> truthy (to d) \<longrightarrow>
      send_message now A (Some d) s =
        Inr (s, [socket_broadcast_emit A (receive_message A ''Unknown'' (message d) False now)])) \<and>
   (\<forall>t J ev s1. ev \<noteq> Send_message None \<longrightarrow> (\<exists>res. socket_on t J ev s1 = Inr res))"
proof -
  assume n: "users_get A (users s) = None"
  have total: "\<exists>res. socket_on t J ev s1 = Inr res" if "ev \<noteq> Send_message None" for t J ev s1
    using that
    by (cases ev) (auto simp add: socket_on_def send_message_def Let_def split: option.splits)
  show ?thesis
    using n total by (auto simp add: send_message_def sender_name_def truthy_def)
qed

theorem unknown_sender_still_sends_witness:
  "users_get ''A'' (users \<lparr>users = [], timers = []\<rparr>) = None \<and>
   send_message 3 ''A'' (Some \<lparr>to = Some ''B'', message = ''hi''\<rparr>) \<lparr>users = [], timers = []\<rparr>
     = Inr (\<lparr>users = [], timers = []\<rparr>,
            [socket_to_emit ''A'' ''B'' (receive_message ''A'' ''Unknown'' ''hi'' True 3)]) \<and>
   (\<exists>res. socket_on 3 ''A'' (Typing True) \<lparr>users = [], timers = []\<rparr> = Inr res)"
proof -
  have n: "users_get ''A'' (users \<lparr>users = [], timers = []\<rparr>) = None"
    by simp
  show ?thesis
    using n unknown_sender_still_sends [OF n, where d = "\<lparr>to = Some ''B'', message = ''hi''\<rparr>"
        and now = 3]
    by simp
qed

section \<open>Typing\<close>

text \<open>
  C8. With no record for \<open>I\<close> the \<^verbatim>\<open>typing\<close> listener emits nothing. With a record it
  emits \<^verbatim>\<open>{ userId: I, username, isTyping }\<close> once with \<^verbatim>\<open>socket.broadcast.emit\<close>, so that
  every connected socket other than \<open>I\<close> receives it exactly once and \<open>I\<close> does not. In
  both cases the state is as it was.
\<close>

theorem typing_relay:
  "(users_get I (users s) = None \<longrightarrow> typing I isTyping s = (s, [])) \<and>
   (\<forall>u. users_get I (users s) = Some u \<longrightarrow>
      (case typing I isTyping s of (s', out) \<Rightarrow>
         s' = s \<and>
         out = [socket_broadcast_emit I (user_typing I (username u) isTyping)] \<and>
         (\<forall>r. inbox live r out =
            (if r \<in> live \<and> r \<noteq> I then [user_typing I (username u) isTyping] else []))))"
  by (simp add: typing_def inbox_Cons inbox_Nil)

theorem typing_relay_witness:
  "users_get ''Z'' (users \<lparr>users = [(''A'', \<lparr>username = ''alice'', status = ''online''\<rparr>)], timers = []\<rparr>)
     = None \<and>
   typing ''Z'' True \<lparr>users = [(''A'', \<lparr>username = ''alice'', status = ''online''\<rparr>)], timers = []\<rparr>
     = (\<lparr>users = [(''A'', \<lparr>username = ''alice'', status = ''online''\<rparr>)], timers = []\<rparr>, []) \<and>
   users_get ''A'' (users \<lparr>users = [(''A'', \<lparr>username = ''alice'', status = ''online''\<rparr>)], timers = []\<rparr>)
     = Some \<lparr>username = ''alice'', status = ''online''\<rparr> \<and>
   inbox {''A'', ''B''} ''B''
       (snd (typing ''A'' True
          \<lparr>users = [(''A'', \<lparr>username = ''alice'', status = ''online''\<rparr>)], timers = []\<rparr>))
     = [user_typing ''A'' ''alice'' True] \<and>
   inbox {''A'', ''B''} ''A''
       (snd (typing ''A'' True
          \<lparr>users = [(''A'', \<lparr>username = ''alice'', status = ''online''\<rparr>)], timers = []\<rparr>))
     = []"
proof -
  let ?s = "\<lparr>users = [(''A'', \<lparr>username = ''alice'', status = ''online''\<rparr>)], timers = []\<rparr>"
  have z: "users_get ''Z'' (users ?s) = None"
    and a: "users_get ''A'' (users ?s) = Some \<lparr>username = ''alice'', status = ''online''\<rparr>"
    by simp_all
  have dropped: "typing ''Z'' True ?s = (?s, [])"
    using z typing_relay [where I = "''Z''" and s = ?s and isTyping = True] by simp
  have run: "typing ''A'' True ?s =
      (?s, [socket_broadcast_emit ''A'' (user_typing ''A'' ''alice'' True)])"
    by (simp add: typing_def)
  have relayed: "\<forall>r. inbox {''A'', ''B''} r
        [socket_broadcast_emit ''A'' (user_typing ''A'' ''alice'' True)] =
      (if r \<in> {''A'', ''B''} \<and> r \<noteq> ''A'' then [user_typing ''A'' ''alice'' True] else [])"
    using a typing_relay [where I = "''A''" and s = ?s and isTyping = True
        and live = "{''A'', ''B''}"]
    unfolding run by simp
  have to_B: "inbox {''A'', ''B''} ''B'' (snd (typing ''A'' True ?s)) = [user_typing ''A'' ''alice'' True]"
    unfolding run using relayed [THEN spec, where x = "''B''"] by simp
  have to_A: "inbox {''A'', ''B''} ''A'' (snd (typing ''A'' True ?s)) = []"
    unfolding run using relayed [THEN spec, where x = "''A''"] by simp
  show ?thesis
    using z a dropped to_B to_A by blast
qed

section \<open>Disconnecting\<close>

lemma users_get_disconnect_other:
  "J \<noteq> I \<Longrightarrow> users_get J (users (fst (disconnect now I s))) = users_get J (users s)"
  by (simp add: disconnect_def users_get_set split: option.splits)

lemma keys_disconnect: "map fst (users (fst (disconnect now I s))) = map fst (users s)"
  by (auto simp add: disconnect_def keys_users_set users_get_None_iff split: option.splits)

text \<open>No listener removes a record.\<close>

lemma listener_keeps_record:
  assumes "socket_on t J ev s = Inr (s', out)" and "users_get I (users s) \<noteq> None"
  shows "users_get I (users s') \<noteq> None"
proof (cases ev)
  case (User_connected uname)
  with assms show ?thesis
    by (auto simp add: socket_on_def user_connected_def Let_def users_get_set)
next
  case (Send_message data)
  with assms show ?thesis
    by (auto simp add: socket_on_def send_message_def Let_def split: option.splits if_splits)
next
  case (Typing b)
  with assms show ?thesis
    by (auto simp add: socket_on_def typing_def split: option.splits)
next
  case Disconnect
  with assms show ?thesis
    by (auto simp add: socket_on_def disconnect_def users_get_set split: option.splits)
qed

text \<open>A timer callback removes the record of the id it captured, and only when that id is not live.\<close>

lemma timer_removes_only_own:
  assumes "timer_fires t live s = Some s'" and "users_get I (users s) \<noteq> None"
    and "users_get I (users s') = None"
  shows "\<exists>due rest. timers s = (due, I) # rest \<and> due \<le> t \<and> I \<notin> live"
  using assms
  by (auto simp add: timer_fires_def grace_timeout_def users_get_delete
      split: list.splits if_splits)

text \<open>
  C4. For an id \<open>I\<close> with no record, the \<^verbatim>\<open>disconnect\<close> listener does nothing: it emits
  nothing, and the state it returns, Map and pending timers, is the one it was given.
\<close>

theorem disconnect_unjoined_noop:
  "users_get I (users s) = None \<Longrightarrow> disconnect now I s = (s, [])"
  by (simp add: disconnect_def)

theorem disconnect_unjoined_noop_witness:
  "users_get ''Z'' (users \<lparr>users = [(''A'', \<lparr>username = ''alice'', status = ''online''\<rparr>)],
                          timers = [(60005, ''Q'')]\<rparr>) = None \<and>
   disconnect 9 ''Z'' \<lparr>users = [(''A'', \<lparr>username = ''alice'', status = ''online''\<rparr>)],
                       timers = [(60005, ''Q'')]\<rparr>
     = (\<lparr>users = [(''A'', \<lparr>username = ''alice'', status = ''online''\<rparr>)],
         timers = [(60005, ''Q'')]\<rparr>, [])"
proof -
  let ?s = "\<lparr>users = [(''A'', \<lparr>username = ''alice'', status = ''online''\<rparr>)],
            timers = [(60005, ''Q'')]\<rparr>"
  have n: "users_get ''Z'' (users ?s) = None"
    by simp
  show ?thesis
    using n disconnect_unjoined_noop [OF n, where now = 9] by simp
qed

text \<open>
  C5. For an id \<open>I\<close> with a record \<open>u\<close>, the \<^verbatim>\<open>disconnect\<close> listener leaves \<open>I\<close> with the
  record \<open>u\<close> in which only \<^verbatim>\<open>status\<close> has changed, to \<^verbatim>\<open>'offline'\<close>; the name is the same,
  every other id has the record it had, and the entries stand in the same order. From
  then on the record of \<open>I\<close> stays in the Map through every listener call, on any socket;
  the only step that can remove it is a grace timer of \<open>I\<close> firing while \<open>I\<close> is not live.
\<close>

theorem disconnect_marks_offline:
  "users_get I (users s) = Some u \<Longrightarrow>
   (case disconnect now I s of (s', out) \<Rightarrow>
      users_get I (users s') = Some (u\<lparr>status := ''offline''\<rparr>) \<and>
      username (u\<lparr>status := ''offline''\<rparr>) = username u \<and>
      (\<forall>J. J \<noteq> I \<longrightarrow> users_get J (users s') = users_get J (users s)) \<and>
      map fst (users_entries (users s')) = map fst (users_entries (users s)) \<and>
      (\<forall>t J ev s'' out'. socket_on t J ev s' = Inr (s'', out') \<longrightarrow>
         users_get I (users s'') \<noteq> None) \<and>
      (\<forall>t live s''. timer_fires t live s' = Some s'' \<and> users_get I (users s'') = None \<longrightarrow>
         (\<exists>due rest. timers s' = (due, I) # rest \<and> due \<le> t \<and> I \<notin> live)))"
proof -
  assume rec: "users_get I (users s) = Some u"
  obtain s' out where d: "disconnect now I s = (s', out)"
    by (cases "disconnect now I s")
  have s': "s' = fst (disconnect now I s)"
    using d by simp
  have now_off: "users_get I (users s') = Some (u\<lparr>status := ''offline''\<rparr>)"
    using rec d by (auto simp add: disconnect_def users_get_set)
  have others: "\<forall>J. J \<noteq> I \<longrightarrow> users_get J (users s') = users_get J (users s)"
    unfolding s' by (simp add: users_get_disconnect_other)
  have order: "map fst (users_entries (users s')) = map fst (users_entries (users s))"
    unfolding s' users_entries_def by (rule keys_disconnect)
  have kept: "\<forall>t J ev s'' out'. socket_on t J ev s' = Inr (s'', out') \<longrightarrow>
      users_get I (users s'') \<noteq> None"
    using listener_keeps_record [where I = I and s = s'] now_off by auto
  have purge: "\<forall>t live s''. timer_fires t live s' = Some s'' \<and> users_get I (users s'') = None \<longrightarrow>
      (\<exists>due rest. timers s' = (due, I) # rest \<and> due \<le> t \<and> I \<notin> live)"
    using timer_removes_only_own [where I = I and s = s'] now_off by auto
  show ?thesis
    unfolding d using now_off others order kept purge by simp
qed

theorem disconnect_marks_offline_witness:
  "users_get ''A''
     (users \<lparr>users = [(''A'', \<lparr>username = ''alice'', status = ''online''\<rparr>),
                      (''B'', \<lparr>username = ''bob'', status = ''online''\<rparr>)], timers = []\<rparr>)
     = Some \<lparr>username = ''alice'', status = ''online''\<rparr> \<and>
   disconnect 1000 ''A''
       \<lparr>users = [(''A'', \<lparr>username = ''alice'', status = ''online''\<rparr>),
                 (''B'', \<lparr>username = ''bob'', status = ''online''\<rparr>)], timers = []\<rparr>
     = (\<lparr>users = [(''A'', \<lparr>username = ''alice'', status = ''offline''\<rparr>),
                  (''B'', \<lparr>username = ''bob'', status = ''online''\<rparr>)],
         timers = [(61000, ''A'')]\<rparr>,
        [io_emit (user_status_changed ''A'' ''alice'' ''offline'' 1000)]) \<and>
   users_get ''A''
     (users \<lparr>users = [(''A'', \<lparr>username = ''alice'', status = ''offline''\<rparr>),
                      (''B'', \<lparr>username = ''bob'', status = ''online''\<rparr>)],
             timers = [(61000, ''A'')]\<rparr>)
     = Some \<lparr>username = ''alice'', status = ''offline''\<rparr> \<and>
   users_get ''B''
     (users \<lparr>users = [(''A'', \<lparr>username = ''alice'', status = ''offline''\<rparr>),
                      (''B'', \<lparr>username = ''bob'', status = ''online''\<rparr>)],
             timers = [(61000, ''A'')]\<rparr>)
     = Some \<lparr>username = ''bob'', status = ''online''\<rparr>"
proof -
  let ?s = "\<lparr>users = [(''A'', \<lparr>username = ''alice'', status = ''online''\<rparr>),
                     (''B'', \<lparr>username = ''bob'', status = ''online''\<rparr>)], timers = []\<rparr>"
  have rec: "users_get ''A'' (users ?s) = Some \<lparr>username = ''alice'', status = ''online''\<rparr>"
    by simp
  have run: "disconnect 1000 ''A'' ?s =
      (\<lparr>users = [(''A'', \<lparr>username = ''alice'', status = ''offline''\<rparr>),
                  (''B'', \<lparr>username = ''bob'', status = ''online''\<rparr>)],
         timers = [(61000, ''A'')]\<rparr>,
       [io_emit (user_status_changed ''A'' ''alice'' ''offline'' 1000)])"
    by (simp add: disconnect_def)
  have after: "case disconnect 1000 ''A'' ?s of (s', out) \<Rightarrow>
      users_get ''A'' (users s') = Some \<lparr>username = ''alice'', status = ''offline''\<rparr> \<and>
      users_get ''B'' (users s') = users_get ''B'' (users ?s)"
    using disconnect_marks_offline [OF rec, where now = 1000]
    by (simp add: split_beta)
  show ?thesis
    using rec run after by simp
qed

section \<open>The grace timer\<close>

text \<open>A listener leaves the pending callbacks alone; \<^verbatim>\<open>disconnect\<close> may add one at the end.\<close>

lemma timers_listener:
  "socket_on t J ev s = Inr (s', out) \<Longrightarrow>
     timers s' = timers s \<or> (ev = Disconnect \<and> timers s' = timers s @ [(t + 60000, J)])"
  by (cases ev)
    (auto simp add: socket_on_def user_connected_def send_message_def typing_def disconnect_def
      Let_def split: option.splits if_splits)

text \<open>
  C6. Let a callback scheduled for \<open>I\<close> be the next to run, and due. When it runs it
  leaves the pending list, and the record of \<open>I\<close> is gone afterwards if \<open>I\<close> is not among
  the live sockets at that moment, while the Map is untouched if \<open>I\<close> is live; the other
  ids keep their records either way. No listener call on any socket, a join or a
  disconnect of \<open>I\<close> included, takes the callback out of the pending list or moves it.
  When a second callback for \<open>I\<close> is pending behind it, the two run one after the other,
  each against the live sockets of its own moment.
\<close>

theorem grace_timer_rechecks_liveness:
  "timers s = (due, I) # rest \<Longrightarrow> due \<le> now \<Longrightarrow>
   (\<exists>s'. timer_fires now live s = Some s' \<and>
      timers s' = rest \<and>
      (I \<notin> live \<longrightarrow> users_get I (users s') = None) \<and>
      (I \<in> live \<longrightarrow> users s' = users s) \<and>
      (\<forall>J. J \<noteq> I \<longrightarrow> users_get J (users s') = users_get J (users s))) \<and>
   (\<forall>t J ev s1 out. socket_on t J ev s = Inr (s1, out) \<longrightarrow>
      (\<exists>new. timers s1 = (due, I) # rest @ new)) \<and>
   (\<forall>due2 rest2 now2 live2. rest = (due2, I) # rest2 \<and> due2 \<le> now2 \<longrightarrow>
      Option.bind (timer_fires now live s) (timer_fires now2 live2) =
        Some (grace_timeout live2 I (grace_timeout live I (s\<lparr>timers := rest2\<rparr>))))"
proof -
  assume p: "timers s = (due, I) # rest" and d: "due \<le> now"
  have fire: "timer_fires now live s = Some (grace_timeout live I (s\<lparr>timers := rest\<rparr>))"
    using p d by (simp add: timer_fires_def)
  have a: "\<exists>s'. timer_fires now live s = Some s' \<and>
      timers s' = rest \<and>
      (I \<notin> live \<longrightarrow> users_get I (users s') = None) \<and>
      (I \<in> live \<longrightarrow> users s' = users s) \<and>
      (\<forall>J. J \<noteq> I \<longrightarrow> users_get J (users s') = users_get J (users s))"
    unfolding fire by (simp add: grace_timeout_def users_get_delete)
  have b: "\<forall>t J ev s1 out. socket_on t J ev s = Inr (s1, out) \<longrightarrow>
      (\<exists>new. timers s1 = (due, I) # rest @ new)"
    using timers_listener [where s = s] p by fastforce
  have c: "\<forall>due2 rest2 now2 live2. rest = (due2, I) # rest2 \<and> due2 \<le> now2 \<longrightarrow>
      Option.bind (timer_fires now live s) (timer_fires now2 live2) =
        Some (grace_timeout live2 I (grace_timeout live I (s\<lparr>timers := rest2\<rparr>)))"
    unfolding fire by (auto simp add: timer_fires_def grace_timeout_def)
  show ?thesis using a b c by blast
qed

theorem grace_timer_rechecks_liveness_witness:
  "timers \<lparr>users = [(''A'', \<lparr>username = ''alice'', status = ''offline''\<rparr>)],
           timers = [(61000, ''A''), (62000, ''A'')]\<rparr> = (61000, ''A'') # [(62000, ''A'')] \<and>
   (61000 :: nat) \<le> 61500 \<and>
   timer_fires 61500 {''A''}
       \<lparr>users = [(''A'', \<lparr>username = ''alice'', status = ''offline''\<rparr>)],
         timers = [(61000, ''A''), (62000, ''A'')]\<rparr>
     = Some \<lparr>users = [(''A'', \<lparr>username = ''alice'', status = ''offline''\<rparr>)],
             timers = [(62000, ''A'')]\<rparr> \<and>
   Option.bind
       (timer_fires 61500 {''A''}
          \<lparr>users = [(''A'', \<lparr>username = ''alice'', status = ''offline''\<rparr>)],
            timers = [(61000, ''A''), (62000, ''A'')]\<rparr>)
       (timer_fires 62000 {})
     = Some \<lparr>users = [], timers = []\<rparr>"
proof -
  let ?s = "\<lparr>users = [(''A'', \<lparr>username = ''alice'', status = ''offline''\<rparr>)],
            timers = [(61000, ''A''), (62000, ''A'')]\<rparr>"
  have p: "timers ?s = (61000, ''A'') # [(62000, ''A'')]"
    by simp
  have d: "(61000 :: nat) \<le> 61500"
    by simp
  have first: "timer_fires 61500 {''A''} ?s =
      Some \<lparr>users = [(''A'', \<lparr>username = ''alice'', status = ''offline''\<rparr>)],
            timers = [(62000, ''A'')]\<rparr>"
    by (simp add: timer_fires_def grace_timeout_def)
  have both: "Option.bind (timer_fires 61500 {''A''} ?s) (timer_fires 62000 {}) =
      Some (grace_timeout {} ''A'' (grace_timeout {''A''} ''A'' (?s\<lparr>timers := []\<rparr>)))"
    using grace_timer_rechecks_liveness [OF p d, where live = "{''A''}"] by simp
  show ?thesis
    using p d first both by (simp add: grace_timeout_def)
qed

section \<open>The roster\<close>

lemma roster_others:
  "r \<noteq> I \<Longrightarrow> inbox live r (snd (user_connected now I name s)) =
     (if r \<in> live then [user_status_changed I name ''online'' now] else [])"
  by (simp add: user_connected_def Let_def inbox_Cons inbox_Nil)

text \<open>What the joining socket receives: the notification, then the list of every entry.\<close>

lemma roster_joiner:
  "inbox live I (snd (user_connected now I name s)) =
     (if I \<in> live
      then [user_status_changed I name ''online'' now,
            users_list (map (\<lambda>(i, u). (i, username u, status u))
              (users_entries (users (fst (user_connected now I name s)))))]
      else [])"
  by (simp add: user_connected_def Let_def inbox_Cons inbox_Nil)

text \<open>With distinct keys, \<^verbatim>\<open>set\<close> on a present key changes that entry and no other.\<close>

lemma users_set_present:
  "distinct (map fst m) \<Longrightarrow> k \<in> set (map fst m) \<Longrightarrow>
     users_set k v m = map (\<lambda>(i, u). if i = k then (k, v) else (i, u)) m"
proof (induction m)
  case Nil
  then show ?case by simp
next
  case (Cons p m)
  obtain k' v' where p: "p = (k', v')"
    by (cases p)
  show ?case
  proof (cases "k' = k")
    case True
    with Cons.prems p have "k \<notin> set (map fst m)"
      by simp
    then have "map (\<lambda>(i, u). if i = k then (k, v) else (i, u)) m = m"
      by (induction m) auto
    with True p show ?thesis
      by simp
  next
    case False
    with Cons p show ?thesis
      by simp
  qed
qed

lemma roster_fresh:
  "users_get I (users s) = None \<Longrightarrow>
     map (\<lambda>(i, u). (i, username u, status u))
         (users_entries (users (fst (user_connected now I name s)))) =
     map (\<lambda>(i, u). (i, username u, status u)) (users_entries (users s)) @ [(I, name, ''online'')]"
  by (simp add: user_connected_def Let_def users_entries_def users_get_None_iff users_set_fresh)

lemma roster_present:
  assumes "users_get I (users s) \<noteq> None" and "distinct (map fst (users s))"
  shows "map (\<lambda>(i, u). (i, username u, status u))
           (users_entries (users (fst (user_connected now I name s)))) =
         map (\<lambda>(i, u). if i = I then (I, name, ''online'') else (i, username u, status u))
           (users_entries (users s))"
proof -
  have k: "I \<in> set (map fst (users s))"
    using assms(1) by (simp only: users_get_None_iff) simp
  show ?thesis
    by (simp add: user_connected_def Let_def users_entries_def
        users_set_present [OF assms(2) k] split_def)
qed

text \<open>
  C9. The entries of the Map come in insertion order: \<^verbatim>\<open>set\<close> on a new key puts its entry
  last, and \<^verbatim>\<open>delete\<close> keeps the order of the keys that stay. On every join, into any
  Map, the joining socket receives (when it is connected) the status notification and then
  one \<^verbatim>\<open>users_list\<close> holding every entry of the Map as it stands after the join, in that
  order, each with its id, name and status, none left out: for an id with no record
  these are the entries from before the join followed by the new one, and for an id
  that has a record (the keys being distinct, as they are in a Map) the entries from
  before with that one replaced where it stood. The list goes to the joining socket
  alone: a socket other than the joining one receives the status notification and nothing
  else. With \<open>A\<close> and \<open>B\<close> both connected and the Map empty, \<open>A\<close> joining first receives a
  list with only \<open>A\<close>; \<open>B\<close> joining next receives the list \<open>A\<close>, \<open>B\<close> in that order, and \<open>A\<close>
  receives only the notification that \<open>B\<close> is online.
\<close>

theorem roster_insertion_order:
  "(\<forall>k v m. k \<notin> set (map fst m) \<longrightarrow>
      users_entries (users_set k v m) = users_entries m @ [(k, v)]) \<and>
   (\<forall>k m. map fst (users_entries (users_delete k m)) =
      filter (\<lambda>k'. k' \<noteq> k) (map fst (users_entries m))) \<and>
   (\<forall>now I name s.
      inbox live I (snd (user_connected now I name s)) =
        (if I \<in> live
         then [user_status_changed I name ''online'' now,
               users_list (map (\<lambda>(i, u). (i, username u, status u))
                 (users_entries (users (fst (user_connected now I name s)))))]
         else [])) \<and>
   (\<forall>now I name s. users_get I (users s) = None \<longrightarrow>
      map (\<lambda>(i, u). (i, username u, status u))
          (users_entries (users (fst (user_connected now I name s)))) =
      map (\<lambda>(i, u). (i, username u, status u)) (users_entries (users s))
        @ [(I, name, ''online'')]) \<and>
   (\<forall>now I name s. users_get I (users s) \<noteq> None \<and> distinct (map fst (users s)) \<longrightarrow>
      map (\<lambda>(i, u). (i, username u, status u))
          (users_entries (users (fst (user_connected now I name s)))) =
      map (\<lambda>(i, u). if i = I then (I, name, ''online'') else (i, username u, status u))
          (users_entries (users s))) \<and>
   (\<forall>now I name s r. r \<noteq> I \<longrightarrow>
      inbox live r (snd (user_connected now I name s)) =
        (if r \<in> live then [user_status_changed I name ''online'' now] else [])) \<and>
   (A \<noteq> B \<and> A \<in> live \<and> B \<in> live \<and> users s0 = [] \<longrightarrow>
      (case user_connected t1 A na s0 of (s1, out1) \<Rightarrow>
       case user_connected t2 B nb s1 of (s2, out2) \<Rightarrow>
         inbox live A out1 =
           [user_status_changed A na ''online'' t1, users_list [(A, na, ''online'')]] \<and>
         inbox live B out1 = [user_status_changed A na ''online'' t1] \<and>
         inbox live B out2 =
           [user_status_changed B nb ''online'' t2,
            users_list [(A, na, ''online''), (B, nb, ''online'')]] \<and>
         inbox live A out2 = [user_status_changed B nb ''online'' t2]))"
proof -
  have fresh: "\<forall>k v m. k \<notin> set (map fst m) \<longrightarrow>
      users_entries (users_set k v m) = users_entries m @ [(k, v)]"
    unfolding users_entries_def using users_set_fresh by blast
  have del: "\<forall>k m. map fst (users_entries (users_delete k m)) =
      filter (\<lambda>k'. k' \<noteq> k) (map fst (users_entries m))"
    unfolding users_entries_def using keys_users_delete by blast
  have joiner: "\<forall>now I name s.
      inbox live I (snd (user_connected now I name s)) =
        (if I \<in> live
         then [user_status_changed I name ''online'' now,
               users_list (map (\<lambda>(i, u). (i, username u, status u))
                 (users_entries (users (fst (user_connected now I name s)))))]
         else [])"
    using roster_joiner by blast
  have new: "\<forall>now I name s. users_get I (users s) = None \<longrightarrow>
      map (\<lambda>(i, u). (i, username u, status u))
          (users_entries (users (fst (user_connected now I name s)))) =
      map (\<lambda>(i, u). (i, username u, status u)) (users_entries (users s))
        @ [(I, name, ''online'')]"
    using roster_fresh by blast
  have again: "\<forall>now I name s. users_get I (users s) \<noteq> None \<and> distinct (map fst (users s)) \<longrightarrow>
      map (\<lambda>(i, u). (i, username u, status u))
          (users_entries (users (fst (user_connected now I name s)))) =
      map (\<lambda>(i, u). if i = I then (I, name, ''online'') else (i, username u, status u))
          (users_entries (users s))"
    using roster_present by blast
  have only: "\<forall>now I name s r. r \<noteq> I \<longrightarrow>
      inbox live r (snd (user_connected now I name s)) =
        (if r \<in> live then [user_status_changed I name ''online'' now] else [])"
    using roster_others by blast
  have scen: "A \<noteq> B \<and> A \<in> live \<and> B \<in> live \<and> users s0 = [] \<longrightarrow>
      (case user_connected t1 A na s0 of (s1, out1) \<Rightarrow>
       case user_connected t2 B nb s1 of (s2, out2) \<Rightarrow>
         inbox live A out1 =
           [user_status_changed A na ''online'' t1, users_list [(A, na, ''online'')]] \<and>
         inbox live B out1 = [user_status_changed A na ''online'' t1] \<and>
         inbox live B out2 =
           [user_status_changed B nb ''online'' t2,
            users_list [(A, na, ''online''), (B, nb, ''online'')]] \<and>
         inbox live A out2 = [user_status_changed B nb ''online'' t2])"
    by (simp add: users_entries_def user_connected_def Let_def inbox_Cons inbox_Nil)
  from fresh del joiner new again only scen show ?thesis
    by (intro conjI)
qed

theorem roster_insertion_order_witness:
  "''A'' \<noteq> ''B'' \<and> ''A'' \<in> {''A'', ''B''} \<and> ''B'' \<in> {''A'', ''B''} \<and>
   users \<lparr>users = [], timers = []\<rparr> = [] \<and>
   inbox {''A'', ''B''} ''A'' (snd (user_connected 1 ''A'' ''alice'' \<lparr>users = [], timers = []\<rparr>))
     = [user_status_changed ''A'' ''alice'' ''online'' 1,
        users_list [(''A'', ''alice'', ''online'')]] \<and>
   inbox {''A'', ''B''} ''B''
       (snd (user_connected 2 ''B'' ''bob''
          (fst (user_connected 1 ''A'' ''alice'' \<lparr>users = [], timers = []\<rparr>))))
     = [user_status_changed ''B'' ''bob'' ''online'' 2,
        users_list [(''A'', ''alice'', ''online''), (''B'', ''bob'', ''online'')]] \<and>
   inbox {''A'', ''B''} ''A''
       (snd (user_connected 2 ''B'' ''bob''
          (fst (user_connected 1 ''A'' ''alice'' \<lparr>users = [], timers = []\<rparr>))))
     = [user_status_changed ''B'' ''bob'' ''online'' 2] \<and>
   users_get ''D''
       (users \<lparr>users = [(''A'', \<lparr>username = ''alice'', status = ''offline''\<rparr>),
                        (''B'', \<lparr>username = ''bob'', status = ''online''\<rparr>),
                        (''C'', \<lparr>username = ''carol'', status = ''online''\<rparr>)],
               timers = [(61000, ''A'')]\<rparr>) = None \<and>
   inbox {''B'', ''C'', ''D''} ''D''
       (snd (user_connected 9 ''D'' ''dan''
          \<lparr>users = [(''A'', \<lparr>username = ''alice'', status = ''offline''\<rparr>),
                    (''B'', \<lparr>username = ''bob'', status = ''online''\<rparr>),
                    (''C'', \<lparr>username = ''carol'', status = ''online''\<rparr>)],
            timers = [(61000, ''A'')]\<rparr>))
     = [user_status_changed ''D'' ''dan'' ''online'' 9,
        users_list [(''A'', ''alice'', ''offline''), (''B'', ''bob'', ''online''),
                    (''C'', ''carol'', ''online''), (''D'', ''dan'', ''online'')]] \<and>
   (users_get ''B''
       (users \<lparr>users = [(''A'', \<lparr>username = ''alice'', status = ''offline''\<rparr>),
                        (''B'', \<lparr>username = ''bob'', status = ''online''\<rparr>),
                        (''C'', \<lparr>username = ''carol'', status = ''online''\<rparr>)],
               timers = [(61000, ''A'')]\<rparr>) \<noteq> None \<and>
   distinct (map fst
       (users \<lparr>users = [(''A'', \<lparr>username = ''alice'', status = ''offline''\<rparr>),
                        (''B'', \<lparr>username = ''bob'', status = ''online''\<rparr>),
                        (''C'', \<lparr>username = ''carol'', status = ''online''\<rparr>)],
               timers = [(61000, ''A'')]\<rparr>))) \<and>
   inbox {''B'', ''C'', ''D''} ''B''
       (snd (user_connected 9 ''B'' ''rob''
          \<lparr>users = [(''A'', \<lparr>username = ''alice'', status = ''offline''\<rparr>),
                    (''B'', \<lparr>username = ''bob'', status = ''online''\<rparr>),
                    (''C'', \<lparr>username = ''carol'', status = ''online''\<rparr>)],
            timers = [(61000, ''A'')]\<rparr>))
     = [user_status_changed ''B'' ''rob'' ''online'' 9,
        users_list [(''A'', ''alice'', ''offline''), (''B'', ''rob'', ''online''),
                    (''C'', ''carol'', ''online'')]]"
proof -
  let ?e = "\<lparr>users = [], timers = []\<rparr>"
  let ?s = "\<lparr>users = [(''A'', \<lparr>username = ''alice'', status = ''offline''\<rparr>),
                     (''B'', \<lparr>username = ''bob'', status = ''online''\<rparr>),
                     (''C'', \<lparr>username = ''carol'', status = ''online''\<rparr>)],
            timers = [(61000, ''A'')]\<rparr>"
  have pre: "''A'' \<noteq> ''B'' \<and> ''A'' \<in> {''A'', ''B''} \<and> ''B'' \<in> {''A'', ''B''} \<and> users ?e = []"
    by simp
  have d_new: "users_get ''D'' (users ?s) = None"
    by simp
  have b_old: "users_get ''B'' (users ?s) \<noteq> None \<and> distinct (map fst (users ?s))"
    by simp
  note two = roster_insertion_order [where live = "{''A'', ''B''}" and A = "''A''" and B = "''B''"
      and ?s0.0 = ?e and ?t1.0 = 1 and ?t2.0 = 2 and na = "''alice''" and nb = "''bob''"]
  note big = roster_insertion_order [where live = "{''B'', ''C'', ''D''}"]
  note joiner = big [THEN conjunct2, THEN conjunct2, THEN conjunct1]
  note new = big [THEN conjunct2, THEN conjunct2, THEN conjunct2, THEN conjunct1]
  note again = big [THEN conjunct2, THEN conjunct2, THEN conjunct2, THEN conjunct2, THEN conjunct1]
  have scen: "case user_connected 1 ''A'' ''alice'' ?e of (s1, out1) \<Rightarrow>
       case user_connected 2 ''B'' ''bob'' s1 of (s2, out2) \<Rightarrow>
         inbox {''A'', ''B''} ''A'' out1 =
           [user_status_changed ''A'' ''alice'' ''online'' 1,
            users_list [(''A'', ''alice'', ''online'')]] \<and>
         inbox {''A'', ''B''} ''B'' out1 = [user_status_changed ''A'' ''alice'' ''online'' 1] \<and>
         inbox {''A'', ''B''} ''B'' out2 =
           [user_status_changed ''B'' ''bob'' ''online'' 2,
            users_list [(''A'', ''alice'', ''online''), (''B'', ''bob'', ''online'')]] \<and>
         inbox {''A'', ''B''} ''A'' out2 = [user_status_changed ''B'' ''bob'' ''online'' 2]"
    by (rule two [THEN conjunct2, THEN conjunct2, THEN conjunct2, THEN conjunct2,
          THEN conjunct2, THEN conjunct2, THEN mp, OF pre])
  have d_list: "map (\<lambda>(i, u). (i, username u, status u))
        (users_entries (users (fst (user_connected 9 ''D'' ''dan'' ?s)))) =
      map (\<lambda>(i, u). (i, username u, status u)) (users_entries (users ?s))
        @ [(''D'', ''dan'', ''online'')]"
    by (rule new [THEN spec, THEN spec, THEN spec, THEN spec, THEN mp, OF d_new])
  have d_in: "inbox {''B'', ''C'', ''D''} ''D'' (snd (user_connected 9 ''D'' ''dan'' ?s)) =
      (if ''D'' \<in> {''B'', ''C'', ''D''}
       then [user_status_changed ''D'' ''dan'' ''online'' 9,
             users_list (map (\<lambda>(i, u). (i, username u, status u))
               (users_entries (users (fst (user_connected 9 ''D'' ''dan'' ?s)))))]
       else [])"
    by (rule joiner [THEN spec, THEN spec, THEN spec, THEN spec])
  have b_list: "map (\<lambda>(i, u). (i, username u, status u))
        (users_entries (users (fst (user_connected 9 ''B'' ''rob'' ?s)))) =
      map (\<lambda>(i, u). if i = ''B'' then (''B'', ''rob'', ''online'') else (i, username u, status u))
        (users_entries (users ?s))"
    by (rule again [THEN spec, THEN spec, THEN spec, THEN spec, THEN mp, OF b_old])
  have b_in: "inbox {''B'', ''C'', ''D''} ''B'' (snd (user_connected 9 ''B'' ''rob'' ?s)) =
      (if ''B'' \<in> {''B'', ''C'', ''D''}
       then [user_status_changed ''B'' ''rob'' ''online'' 9,
             users_list (map (\<lambda>(i, u). (i, username u, status u))
               (users_entries (users (fst (user_connected 9 ''B'' ''rob'' ?s)))))]
       else [])"
    by (rule joiner [THEN spec, THEN spec, THEN spec, THEN spec])
  have c123: "inbox {''A'', ''B''} ''A'' (snd (user_connected 1 ''A'' ''alice'' ?e)) =
      [user_status_changed ''A'' ''alice'' ''online'' 1, users_list [(''A'', ''alice'', ''online'')]] \<and>
    inbox {''A'', ''B''} ''B''
        (snd (user_connected 2 ''B'' ''bob'' (fst (user_connected 1 ''A'' ''alice'' ?e)))) =
      [user_status_changed ''B'' ''bob'' ''online'' 2,
       users_list [(''A'', ''alice'', ''online''), (''B'', ''bob'', ''online'')]] \<and>
    inbox {''A'', ''B''} ''A''
        (snd (user_connected 2 ''B'' ''bob'' (fst (user_connected 1 ''A'' ''alice'' ?e)))) =
      [user_status_changed ''B'' ''bob'' ''online'' 2]"
    using scen by (simp add: split_beta)
  have c4: "inbox {''B'', ''C'', ''D''} ''D'' (snd (user_connected 9 ''D'' ''dan'' ?s)) =
      [user_status_changed ''D'' ''dan'' ''online'' 9,
       users_list [(''A'', ''alice'', ''offline''), (''B'', ''bob'', ''online''),
                   (''C'', ''carol'', ''online''), (''D'', ''dan'', ''online'')]]"
    unfolding d_in d_list by (simp add: users_entries_def)
  have c5: "inbox {''B'', ''C'', ''D''} ''B'' (snd (user_connected 9 ''B'' ''rob'' ?s)) =
      [user_status_changed ''B'' ''rob'' ''online'' 9,
       users_list [(''A'', ''alice'', ''offline''), (''B'', ''rob'', ''online''),
                   (''C'', ''carol'', ''online'')]]"
    unfolding b_in b_list by (simp add: users_entries_def)
  show ?thesis
    by (rule conjI [OF pre [THEN conjunct1]] conjI [OF pre [THEN conjunct2, THEN conjunct1]]
        conjI [OF pre [THEN conjunct2, THEN conjunct2, THEN conjunct1]]
        conjI [OF pre [THEN conjunct2, THEN conjunct2, THEN conjunct2]]
        conjI [OF c123 [THEN conjunct1]] conjI [OF c123 [THEN conjunct2, THEN conjunct1]]
        conjI [OF c123 [THEN conjunct2, THEN conjunct2]]
        conjI [OF d_new] conjI [OF c4] conjI [OF b_old] c5)+
qed

text \<open>
  C10. When \<open>I\<close> already has an entry, a further \<^verbatim>\<open>user_connected\<close> on \<open>I\<close> replaces its
  record by the new name with status \<^verbatim>\<open>'online'\<close> and leaves the order of the ids in the
  Map, the position of \<open>I\<close> included, and the records of the other ids as they were. The
  status update made by \<^verbatim>\<open>disconnect\<close> leaves that order unchanged as well.
\<close>

theorem rejoin_keeps_position:
  "users_get I (users s) \<noteq> None \<Longrightarrow>
   (case user_connected now I name' s of (s', out) \<Rightarrow>
      users_get I (users s') = Some \<lparr>username = name', status = ''online''\<rparr> \<and>
      map fst (users_entries (users s')) = map fst (users_entries (users s)) \<and>
      (\<forall>J. J \<noteq> I \<longrightarrow> users_get J (users s') = users_get J (users s))) \<and>
   map fst (users_entries (users (fst (disconnect now I s)))) = map fst (users_entries (users s))"
  by (simp add: user_connected_def Let_def users_get_set keys_users_set users_get_None_iff
      users_entries_def keys_disconnect)

theorem rejoin_keeps_position_witness:
  "users_get ''A''
     (users \<lparr>users = [(''A'', \<lparr>username = ''alice'', status = ''offline''\<rparr>),
                      (''B'', \<lparr>username = ''bob'', status = ''online''\<rparr>)], timers = []\<rparr>) \<noteq> None \<and>
   users (fst (user_connected 5 ''A'' ''al''
       \<lparr>users = [(''A'', \<lparr>username = ''alice'', status = ''offline''\<rparr>),
                 (''B'', \<lparr>username = ''bob'', status = ''online''\<rparr>)], timers = []\<rparr>))
     = [(''A'', \<lparr>username = ''al'', status = ''online''\<rparr>),
        (''B'', \<lparr>username = ''bob'', status = ''online''\<rparr>)] \<and>
   map fst (users_entries (users (fst (user_connected 5 ''A'' ''al''
       \<lparr>users = [(''A'', \<lparr>username = ''alice'', status = ''offline''\<rparr>),
                 (''B'', \<lparr>username = ''bob'', status = ''online''\<rparr>)], timers = []\<rparr>))))
     = [''A'', ''B'']"
proof -
  let ?s = "\<lparr>users = [(''A'', \<lparr>username = ''alice'', status = ''offline''\<rparr>),
                     (''B'', \<lparr>username = ''bob'', status = ''online''\<rparr>)], timers = []\<rparr>"
  have rec: "users_get ''A'' (users ?s) \<noteq> None"
    by simp
  have run: "users (fst (user_connected 5 ''A'' ''al'' ?s)) =
      [(''A'', \<lparr>username = ''al'', status = ''online''\<rparr>),
       (''B'', \<lparr>username = ''bob'', status = ''online''\<rparr>)]"
    by (simp add: user_connected_def Let_def)
  have order: "map fst (users_entries (users (fst (user_connected 5 ''A'' ''al'' ?s)))) =
      map fst (users_entries (users ?s))"
    using rejoin_keeps_position [OF rec, where now = 5 and name' = "''al''"]
    by (simp add: split_beta)
  show ?thesis
    using rec run order by (simp add: users_entries_def)
qed

end
